theory Spec2Isabelle
  imports Main "HOL-Library.Sublist"
begin

section \<open>The whiteboard canvas of \<open>src/index.ts\<close>\<close>

text \<open>
  The class \<open>Canvas\<close> of \<open>src/index.ts\<close> (its latest version, the one with save
  listeners) is embedded as functions on a record of its fields. What the browser owns
  is made explicit: the 2D drawing context is a record holding its stroke style and the
  list of drawing calls it has received, the console is a list of logged lines, and
  whatever a save listener touches is a host world of an arbitrary type \<open>'w\<close>.
\<close>

subsection \<open>Numbers\<close>

text \<open>
  A JavaScript \<open>number\<close> is a double. The model has the integers, the two infinities
  (the code stores \<open>Infinity\<close> as the anchor's "unset" value) and \<open>NaN\<close>, and computes on
  integers exactly. That is what the code's doubles do as long as every operand and result
  is an integer of magnitude at most \<open>2 ^ 53\<close>. A double with a fraction has no term in the
  model, and beyond \<open>2 ^ 53\<close> a double rounds where the model does not; \<open>exact_range\<close>
  below marks the coordinates for which the model's arithmetic is the code's.
\<close>

datatype number = Num int | PosInfinity | NegInfinity | NaN

fun sub :: "number \<Rightarrow> number \<Rightarrow> number" where
  "sub (Num a) (Num b) = Num (a - b)"
| "sub NaN _ = NaN"
| "sub _ NaN = NaN"
| "sub PosInfinity PosInfinity = NaN"
| "sub NegInfinity NegInfinity = NaN"
| "sub PosInfinity _ = PosInfinity"
| "sub NegInfinity _ = NegInfinity"
| "sub (Num a) PosInfinity = NegInfinity"
| "sub (Num a) NegInfinity = PosInfinity"

fun add :: "number \<Rightarrow> number \<Rightarrow> number" where
  "add (Num a) (Num b) = Num (a + b)"
| "add NaN _ = NaN"
| "add _ NaN = NaN"
| "add PosInfinity NegInfinity = NaN"
| "add NegInfinity PosInfinity = NaN"
| "add PosInfinity _ = PosInfinity"
| "add NegInfinity _ = NegInfinity"
| "add (Num a) PosInfinity = PosInfinity"
| "add (Num a) NegInfinity = NegInfinity"

text \<open>\<open>Math.ceil(x / 2)\<close>: on an integer, the ceiling of its half.\<close>

fun ceil_half :: "number \<Rightarrow> number" where
  "ceil_half (Num a) = Num ((a + 1) div 2)"
| "ceil_half n = n"

subsection \<open>Items\<close>

record Box =
  posX :: number
  posY :: number
  width :: number
  height :: number
  color :: string

text \<open>\<open>new Image(10, 10)\<close> with its \<open>src\<close> assigned.\<close>

record HTMLImageElement =
  img_width :: int
  img_height :: int
  src :: string

text \<open>\<open>type Item = Box | ImageItem\<close>; an \<open>ImageItem\<close> wraps its image.\<close>

datatype Item = BoxItem Box | ImageItem HTMLImageElement

fun isBox :: "Item \<Rightarrow> bool" where
  "isBox (BoxItem b) = True"
| "isBox (ImageItem i) = False"

subsection \<open>The color generator\<close>

text \<open>
  The generator function \<open>getRandomColor\<close> keeps one local, \<open>currentNumber\<close>, across its
  yields; a generator object is that local. Each \<open>next()\<close> runs one turn of the
  \<open>while (true)\<close> loop: increment, then yield. The loop has no exit, so \<open>next()\<close> always
  yields a value and the generator is never done.
\<close>

record Generator =
  currentNumber :: nat

definition googColors :: "string list" where
  "googColors = [''blue'', ''red'', ''yellow'', ''green'']"

definition getRandomColor :: "Generator" where
  "getRandomColor = \<lparr>currentNumber = 0\<rparr>"

definition gen_next :: "Generator \<Rightarrow> string \<times> Generator" where
  "gen_next g =
     (let n = currentNumber g + 1
      in (googColors ! (n mod length googColors), \<lparr>currentNumber = n\<rparr>))"

text \<open>The values of \<open>k\<close> successive calls of \<open>next()\<close>, and the generator they leave.\<close>

fun next_times :: "nat \<Rightarrow> Generator \<Rightarrow> string list \<times> Generator" where
  "next_times 0 g = ([], g)"
| "next_times (Suc k) g =
     (case gen_next g of (v, g1) \<Rightarrow>
        (case next_times k g1 of (vs, g2) \<Rightarrow> (v # vs, g2)))"

subsection \<open>The drawing surface\<close>

text \<open>
  A call the context has received. A stroke is recorded with the stroke style, line cap
  and line width in force when it was made.
\<close>

datatype DrawCall =
    ClearRect number number number number
  | StrokeRect string string int number number number number
  | DrawImage HTMLImageElement number number number number

text \<open>
  The context. Which strings it takes for a color is the browser's business; the test is
  a field of the record, \<open>is_color\<close>, which nothing in the code changes.
\<close>

record Context2D =
  strokeStyle :: string
  lineCap :: string
  lineWidth :: int
  drawn :: "DrawCall list"
  is_color :: "string \<Rightarrow> bool"

record HTMLCanvasElement =
  elem_width :: int
  elem_height :: int
  context2d :: Context2D

text \<open>
  What \<open>getBoundingClientRect()\<close> returns when a handler asks for it, and a mouse event.
  Their coordinates are taken to be integers.
\<close>

record DOMRect =
  rect_left :: int
  rect_top :: int

record MouseEvent =
  clientX :: int
  clientY :: int

text \<open>
  Assigning to \<open>ctx.strokeStyle\<close>. The value comes from \<open>setColor\<close>: a string of the host's
  choice through the public method, a stored color, or the saved \<open>currentColor\<close> that
  \<open>refresh\<close> puts back, which may be \<open>undefined\<close>. A canvas context ignores an assignment
  of anything it does not take for a color, \<open>undefined\<close> or a string, and the style stays
  as it was.
\<close>

fun assign_strokeStyle :: "string option \<Rightarrow> Context2D \<Rightarrow> Context2D" where
  "assign_strokeStyle (Some c) cx = (if is_color cx c then cx\<lparr>strokeStyle := c\<rparr> else cx)"
| "assign_strokeStyle None cx = cx"

definition clearRect :: "number \<Rightarrow> number \<Rightarrow> number \<Rightarrow> number \<Rightarrow> Context2D \<Rightarrow> Context2D" where
  "clearRect x y w h cx = cx\<lparr>drawn := drawn cx @ [ClearRect x y w h]\<rparr>"

definition strokeRect :: "number \<Rightarrow> number \<Rightarrow> number \<Rightarrow> number \<Rightarrow> Context2D \<Rightarrow> Context2D" where
  "strokeRect x y w h cx =
     cx\<lparr>drawn := drawn cx @ [StrokeRect (strokeStyle cx) (lineCap cx) (lineWidth cx) x y w h]\<rparr>"

definition drawImage ::
  "HTMLImageElement \<Rightarrow> number \<Rightarrow> number \<Rightarrow> number \<Rightarrow> number \<Rightarrow> Context2D \<Rightarrow> Context2D" where
  "drawImage img x y w h cx = cx\<lparr>drawn := drawn cx @ [DrawImage img x y w h]\<rparr>"

subsection \<open>Save listeners and their world\<close>

text \<open>
  A save listener is host code: called with the current box (the code passes
  \<open>this.currentBox\<close> as it is, so possibly \<open>undefined\<close>), it may change the host's world,
  and it either returns a boolean or throws. What it has done to the world before it throws
  stays done. A listener does not call back into the canvas.
\<close>

datatype outcome = Returned bool | Threw string

type_synonym 'w callback = "Box option \<Rightarrow> 'w \<Rightarrow> outcome \<times> 'w"

record 'w World =
  console :: "string list"
  host :: 'w

subsection \<open>The class \<open>Canvas\<close>\<close>

text \<open>
  \<open>currentBox\<close> is declared \<open>Item | undefined\<close>; the only values the class stores in it
  are \<open>new Box(...)\<close> and \<open>undefined\<close>, and the listeners receive it cast to \<open>Box\<close>.
\<close>

record 'w Canvas =
  canvas :: HTMLCanvasElement
  ctx :: Context2D
  boxes :: "Item list"
  currentBox :: "Box option"
  xstartPosition :: number
  ystartPosition :: number
  canDraw :: bool
  currentColor :: "string option"
  colorGenerator :: Generator
  saveCallbacks :: "'w callback list"

text \<open>
  \<open>canvas.width\<close> and \<open>canvas.height\<close> are \<open>unsigned long\<close> attributes that reflect
  content attributes with defaults 300 and 150: the assigned integer is taken modulo
  \<open>2 ^ 32\<close>, and a result above \<open>2 ^ 31 - 1\<close> gives the default instead.
\<close>

definition reflect_unsigned :: "int \<Rightarrow> int \<Rightarrow> int" where
  "reflect_unsigned dflt v = (let u = v mod 2 ^ 32 in if u < 2 ^ 31 then u else dflt)"

definition setupSize :: "int \<Rightarrow> int \<Rightarrow> 'w Canvas \<Rightarrow> 'w Canvas" where
  "setupSize w h s =
     s\<lparr>canvas := (canvas s)\<lparr>elem_width := reflect_unsigned 300 w,
                             elem_height := reflect_unsigned 150 h\<rparr>\<rparr>"

definition Canvas_new :: "HTMLCanvasElement \<Rightarrow> int \<Rightarrow> int \<Rightarrow> 'w Canvas" where
  "Canvas_new element w h =
     setupSize w h
       \<lparr>canvas = element, ctx = context2d element, boxes = [], currentBox = None,
        xstartPosition = Num 0, ystartPosition = Num 0, canDraw = False,
        currentColor = None, colorGenerator = getRandomColor, saveCallbacks = []\<rparr>"

definition setColor :: "string option \<Rightarrow> 'w Canvas \<Rightarrow> 'w Canvas" where
  "setColor c s = s\<lparr>ctx := assign_strokeStyle c (ctx s), currentColor := c\<rparr>"

definition setupPen :: "'w Canvas \<Rightarrow> 'w Canvas" where
  "setupPen s = s\<lparr>ctx := (ctx s)\<lparr>lineCap := ''butt'', lineWidth := 3\<rparr>\<rparr>"

text \<open>
  The method \<open>setup\<close>, here \<open>setupCanvas\<close>. It also subscribes the three handlers to the
  element's mouse events; in the model the subscription is the delivery of the mouse
  operations below, each to its handler, once.
\<close>

definition setupCanvas :: "'w Canvas \<Rightarrow> 'w World \<Rightarrow> 'w Canvas \<times> 'w World" where
  "setupCanvas s w = (setupPen s, w\<lparr>console := console w @ [''Mounted canvas'']\<rparr>)"

definition xCorrection :: "DOMRect \<Rightarrow> int" where
  "xCorrection r = rect_left r"

definition yCorrection :: "DOMRect \<Rightarrow> int" where
  "yCorrection r = rect_top r"

text \<open>
  The body of the loop of \<open>refresh\<close> for one item, and the loop. The two equations of
  \<open>refresh_item\<close> are the two branches of \<open>if (isBox(box))\<close>. \<open>previousColor\<close> is
  \<open>this.currentColor\<close> as it is, so possibly \<open>undefined\<close>.
\<close>

fun refresh_item :: "Item \<Rightarrow> 'w Canvas \<Rightarrow> 'w Canvas" where
  "refresh_item (BoxItem box) s =
     (let previousColor = currentColor s;
          s1 = setColor (Some (color box)) s;
          s2 = s1\<lparr>ctx := strokeRect (posX box) (posY box) (width box) (height box) (ctx s1)\<rparr>
      in setColor previousColor s2)"
| "refresh_item (ImageItem img) s =
     s\<lparr>ctx := drawImage img (Num 0) (Num 0)
              (Num (elem_width (canvas s))) (Num (elem_height (canvas s))) (ctx s)\<rparr>"

fun refresh_loop :: "Item list \<Rightarrow> 'w Canvas \<Rightarrow> 'w Canvas" where
  "refresh_loop [] s = s"
| "refresh_loop (box # rest) s = refresh_loop rest (refresh_item box s)"

definition refresh :: "'w Canvas \<Rightarrow> 'w Canvas" where
  "refresh s =
     refresh_loop (boxes s)
       (s\<lparr>ctx := clearRect (Num 0) (Num 0)
                 (Num (elem_width (canvas s))) (Num (elem_height (canvas s))) (ctx s)\<rparr>)"

text \<open>
  \<open>setPicture\<close> appends the image item at once; the image's \<open>onload\<close> handler, which
  calls \<open>refresh\<close>, runs later, when the host delivers the load.
\<close>

definition setPicture :: "string \<Rightarrow> 'w Canvas \<Rightarrow> 'w Canvas" where
  "setPicture path s =
     s\<lparr>boxes := boxes s @ [ImageItem \<lparr>img_width = 10, img_height = 10, src = path\<rparr>]\<rparr>"

definition addSaveListener :: "'w callback \<Rightarrow> 'w Canvas \<Rightarrow> 'w Canvas" where
  "addSaveListener callback s = s\<lparr>saveCallbacks := saveCallbacks s @ [callback]\<rparr>"

text \<open>
  The loop of \<open>saveCurrentBox\<close> over the callbacks. \<open>Reject\<close> is the early \<open>return\<close> of the
  method (a callback returned false, or threw and the error was logged), \<open>Accept\<close> is
  the loop running to its end.
\<close>

datatype Decision = Accept | Reject

fun callbacks_loop :: "'w callback list \<Rightarrow> Box option \<Rightarrow> 'w World \<Rightarrow> Decision \<times> 'w World" where
  "callbacks_loop [] b w = (Accept, w)"
| "callbacks_loop (callback # rest) b w =
     (case callback b (host w) of
        (Returned res, h) \<Rightarrow>
          if \<not> res then (Reject, w\<lparr>host := h\<rparr>)
          else callbacks_loop rest b (w\<lparr>host := h\<rparr>)
      | (Threw err, h) \<Rightarrow> (Reject, w\<lparr>host := h, console := console w @ [err]\<rparr>))"

definition saveCurrentBox :: "'w Canvas \<Rightarrow> 'w World \<Rightarrow> 'w Canvas \<times> 'w World" where
  "saveCurrentBox s w =
     (case callbacks_loop (saveCallbacks s) (currentBox s) w of
        (Reject, w1) \<Rightarrow> (s, w1)
      | (Accept, w1) \<Rightarrow>
          (case currentBox s of
             Some box \<Rightarrow> (s\<lparr>boxes := boxes s @ [BoxItem box], currentBox := None\<rparr>, w1)
           | None \<Rightarrow> (s, w1)))"

definition onMouseUp :: "MouseEvent \<Rightarrow> 'w Canvas \<Rightarrow> 'w World \<Rightarrow> 'w Canvas \<times> 'w World" where
  "onMouseUp e s w =
     (case saveCurrentBox
             (s\<lparr>canDraw := False, xstartPosition := PosInfinity, ystartPosition := PosInfinity\<rparr>) w
      of (s1, w1) \<Rightarrow> (s1\<lparr>currentColor := None\<rparr>, w1))"

definition onMouseDown :: "MouseEvent \<Rightarrow> DOMRect \<Rightarrow> 'w Canvas \<Rightarrow> 'w Canvas" where
  "onMouseDown e r s =
     s\<lparr>canDraw := True,
       xstartPosition := sub (Num (clientX e)) (Num (xCorrection r)),
       ystartPosition := sub (Num (clientY e)) (Num (yCorrection r))\<rparr>"

text \<open>
  \<open>drawRectangle\<close>. After the \<open>if\<close> that takes a color from the generator,
  \<open>this.currentColor\<close> is defined; the model names that color \<open>c\<close> where the code
  writes \<open>this.currentColor!\<close>.
\<close>

definition take_color :: "'w Canvas \<Rightarrow> string \<times> 'w Canvas" where
  "take_color s =
     (case currentColor s of
        None \<Rightarrow>
          (case gen_next (colorGenerator s) of
             (v, g) \<Rightarrow> (v, setColor (Some v) (s\<lparr>colorGenerator := g\<rparr>)))
      | Some c \<Rightarrow> (c, s))"

definition drawRectangle :: "MouseEvent \<Rightarrow> DOMRect \<Rightarrow> 'w Canvas \<Rightarrow> 'w Canvas" where
  "drawRectangle e r s =
     (if \<not> canDraw s then s
      else
        (case take_color (refresh s) of
           (c, s2) \<Rightarrow>
             (let w = sub (sub (Num (clientX e)) (xstartPosition s2)) (Num (xCorrection r));
                  h = sub (sub (Num (clientY e)) (ystartPosition s2)) (Num (yCorrection r));
                  s3 = s2\<lparr>ctx := strokeRect (xstartPosition s2) (ystartPosition s2) w h (ctx s2)\<rparr>
              in s3\<lparr>currentBox :=
                      Some \<lparr>posX = xstartPosition s3, posY = ystartPosition s3,
                            width = w, height = h, color = c\<rparr>\<rparr>)))"

definition onDraw :: "MouseEvent \<Rightarrow> DOMRect \<Rightarrow> 'w Canvas \<Rightarrow> 'w Canvas" where
  "onDraw e r s = drawRectangle e r s"

subsection \<open>The page: \<open>Main\<close> and its overlay listener\<close>

text \<open>
  The host world of \<open>Main\<close> is the container's list of overlays. An overlay's \<open>top\<close> and
  \<open>left\<close> are kept as the numbers the code formats into pixel strings.
\<close>

record Overlay =
  overlay_top :: number
  overlay_left :: number
  overlay_width :: int
  overlay_height :: int
  backgroundColor :: string

definition addOverlay :: "number \<Rightarrow> number \<Rightarrow> string \<Rightarrow> Overlay list \<Rightarrow> Overlay list" where
  "addOverlay px py col container =
     container @
       [\<lparr>overlay_top = sub py (Num 50), overlay_left = sub px (Num 50),
         overlay_width = 100, overlay_height = 100, backgroundColor = col\<rparr>]"

text \<open>
  The listener \<open>Main\<close> registers. It reads \<open>box.posX\<close> first, which is a \<open>TypeError\<close> when
  \<open>box\<close> is \<open>undefined\<close>.
\<close>

fun overlay_listener :: "Overlay list callback" where
  "overlay_listener None container = (Threw ''TypeError'', container)"
| "overlay_listener (Some box) container =
     (let w = add (posX box) (ceil_half (width box));
          h = add (posY box) (ceil_half (height box))
      in (Returned True, addOverlay w h (color box) container))"

text \<open>\<open>Main\<close>, given the window's inner size and the canvas element it created.\<close>

definition MainFn ::
  "int \<Rightarrow> int \<Rightarrow> HTMLCanvasElement \<Rightarrow> Overlay list World \<Rightarrow> Overlay list Canvas \<times> Overlay list World" where
  "MainFn innerWidth innerHeight element w =
     (case setupCanvas (Canvas_new element (innerWidth - 9) (innerHeight - 9)) w of
        (s, w1) \<Rightarrow> (addSaveListener overlay_listener (setPicture ''./static/picture.jpg'' s), w1))"

subsection \<open>Operations on a canvas\<close>

text \<open>
  Everything that can happen to a canvas once it exists: the three mouse events (each
  with the bounding rectangle the element has when it is delivered), the load of a
  picture, and the public methods.
\<close>

datatype 'w Op =
    MouseDown MouseEvent DOMRect
  | MouseMove MouseEvent DOMRect
  | MouseUp MouseEvent
  | ImageLoaded
  | CallSetPicture string
  | CallSetColor string
  | CallAddSaveListener "'w callback"
  | CallSetup

fun step :: "'w Op \<Rightarrow> 'w Canvas \<times> 'w World \<Rightarrow> 'w Canvas \<times> 'w World" where
  "step (MouseDown e r) (s, w) = (onMouseDown e r s, w)"
| "step (MouseMove e r) (s, w) = (onDraw e r s, w)"
| "step (MouseUp e) (s, w) = onMouseUp e s w"
| "step ImageLoaded (s, w) = (refresh s, w)"
| "step (CallSetPicture path) (s, w) = (setPicture path s, w)"
| "step (CallSetColor c) (s, w) = (setColor (Some c) s, w)"
| "step (CallAddSaveListener cb) (s, w) = (addSaveListener cb s, w)"
| "step CallSetup (s, w) = setupCanvas s w"

fun run :: "'w Op list \<Rightarrow> 'w Canvas \<times> 'w World \<Rightarrow> 'w Canvas \<times> 'w World" where
  "run [] sw = sw"
| "run (op # ops) sw = run ops (step op sw)"

subsection \<open>Sequences of mouse events\<close>

text \<open>
  A position in the canvas's own coordinates, as the handlers compute it: the event's
  client position less the corner of the element's bounding rectangle.
\<close>

definition localX :: "MouseEvent \<times> DOMRect \<Rightarrow> int" where
  "localX p = clientX (fst p) - rect_left (snd p)"

definition localY :: "MouseEvent \<times> DOMRect \<Rightarrow> int" where
  "localY p = clientY (fst p) - rect_top (snd p)"

text \<open>A pointer-down, the pointer-moves that follow it, and the pointer-up.\<close>

definition moves :: "(MouseEvent \<times> DOMRect) list \<Rightarrow> 'w Op list" where
  "moves ms = map (\<lambda>p. MouseMove (fst p) (snd p)) ms"

definition drag :: "MouseEvent \<times> DOMRect \<Rightarrow> (MouseEvent \<times> DOMRect) list \<Rightarrow> MouseEvent \<Rightarrow> 'w Op list" where
  "drag d ms u = MouseDown (fst d) (snd d) # moves ms @ [MouseUp u]"

text \<open>The mouse at a point of the canvas, for an element whose bounding rectangle is \<open>r\<close>.\<close>

definition mouse_at :: "DOMRect \<Rightarrow> int \<Rightarrow> int \<Rightarrow> MouseEvent" where
  "mouse_at r x y = \<lparr>clientX = x + rect_left r, clientY = y + rect_top r\<rparr>"


subsection \<open>The drawing calls of one \<open>refresh\<close>\<close>

definition rendered :: "'w Canvas \<Rightarrow> DrawCall list" where
  "rendered s = drop (length (drawn (ctx s))) (drawn (ctx (refresh s)))"

text \<open>The call \<open>refresh\<close> makes for one item, given the element and the pen.\<close>

text \<open>
  Every committed rectangle's stored color is one the context takes for a color. The
  colors of the generator's palette are CSS colors; a stored color that is none can only
  come from the host, through the public \<open>setColor\<close>.
\<close>

fun item_parses :: "Context2D \<Rightarrow> Item \<Rightarrow> bool" where
  "item_parses cx (BoxItem box) = is_color cx (color box)"
| "item_parses cx (ImageItem img) = True"

definition colors_parse :: "'w Canvas \<Rightarrow> bool" where
  "colors_parse s = list_all (item_parses (ctx s)) (boxes s)"

text \<open>
  The same of every color the canvas holds: in the committed list, in the current-color
  slot and in the provisional rectangle, for a context whose test is \<open>ok\<close>. And an
  operation that brings in no string that is not a color: any but a call of \<open>setColor\<close>
  with such a string.
\<close>

definition colors_inv :: "(string \<Rightarrow> bool) \<Rightarrow> 'w Canvas \<Rightarrow> bool" where
  "colors_inv ok s =
     (is_color (ctx s) = ok \<and> colors_parse s
      \<and> (case currentColor s of None \<Rightarrow> True | Some c \<Rightarrow> ok c)
      \<and> (case currentBox s of None \<Rightarrow> True | Some box \<Rightarrow> ok (color box)))"

fun op_parses :: "(string \<Rightarrow> bool) \<Rightarrow> 'w Op \<Rightarrow> bool" where
  "op_parses ok (CallSetColor c) = ok c"
| "op_parses ok op = True"

fun item_call :: "HTMLCanvasElement \<Rightarrow> string \<Rightarrow> int \<Rightarrow> Item \<Rightarrow> DrawCall" where
  "item_call el cap lw (BoxItem box) =
     StrokeRect (color box) cap lw (posX box) (posY box) (width box) (height box)"
| "item_call el cap lw (ImageItem img) =
     DrawImage img (Num 0) (Num 0) (Num (elem_width el)) (Num (elem_height el))"

subsection \<open>The save pipeline, as the specification words it\<close>

text \<open>
  The specification's \<open>evaluate\<close>: the listeners are called in registration order, each in
  the world the one before it left; the first that does not return true ends the
  evaluation with \<open>Reject\<close>, its error, if it threw one, logged; no listener after it is
  called; when all return true the decision is \<open>Accept\<close>.

  \<open>answers\<close> lists what each listener answers when all are called in order, \<open>effects\<close> is
  the world after calling each listener of a list in order, and \<open>first_veto\<close> is the index of
  the first listener that does not return true (the number of listeners if there is none).
\<close>

fun answers :: "'w callback list \<Rightarrow> Box option \<Rightarrow> 'w \<Rightarrow> outcome list" where
  "answers [] b h = []"
| "answers (cb # rest) b h = fst (cb b h) # answers rest b (snd (cb b h))"

fun effects :: "'w callback list \<Rightarrow> Box option \<Rightarrow> 'w \<Rightarrow> 'w" where
  "effects [] b h = h"
| "effects (cb # rest) b h = effects rest b (snd (cb b h))"

definition first_veto :: "'w callback list \<Rightarrow> Box option \<Rightarrow> 'w \<Rightarrow> nat" where
  "first_veto cs b h = length (takeWhile (\<lambda>a. a = Returned True) (answers cs b h))"

fun logged :: "outcome \<Rightarrow> string list" where
  "logged (Threw err) = [err]"
| "logged (Returned res) = []"

definition evaluate :: "'w callback list \<Rightarrow> Box option \<Rightarrow> 'w World \<Rightarrow> Decision \<times> 'w World" where
  "evaluate cs b w =
     (let k = first_veto cs b (host w)
      in if k = length cs then (Accept, w\<lparr>host := effects cs b (host w)\<rparr>)
         else (Reject, w\<lparr>host := effects (take (Suc k) cs) b (host w),
                          console := console w @ logged (answers cs b (host w) ! k)\<rparr>))"

subsection \<open>Concrete pages\<close>

text \<open>A canvas element as the browser creates it, and a world in which nothing has happened.\<close>

text \<open>
  What a fresh context is taken to accept as a color here: the named colors of CSS and
  its hexadecimal notations, in either letter case. A real context accepts more (the
  functional notations, such as \<open>rgb(0, 0, 0)\<close>); no string used below is of that kind,
  and the general statements hold for every context, whatever it accepts.
\<close>

definition css_named_colors :: "string list" where
  "css_named_colors =
     [''aliceblue'', ''antiquewhite'', ''aqua'', ''aquamarine'', ''azure'', ''beige'', ''bisque'',
      ''black'', ''blanchedalmond'', ''blue'', ''blueviolet'', ''brown'', ''burlywood'',
      ''cadetblue'', ''chartreuse'', ''chocolate'', ''coral'', ''cornflowerblue'', ''cornsilk'',
      ''crimson'', ''cyan'', ''darkblue'', ''darkcyan'', ''darkgoldenrod'', ''darkgray'',
      ''darkgreen'', ''darkgrey'', ''darkkhaki'', ''darkmagenta'', ''darkolivegreen'',
      ''darkorange'', ''darkorchid'', ''darkred'', ''darksalmon'', ''darkseagreen'',
      ''darkslateblue'', ''darkslategray'', ''darkslategrey'', ''darkturquoise'', ''darkviolet'',
      ''deeppink'', ''deepskyblue'', ''dimgray'', ''dimgrey'', ''dodgerblue'', ''firebrick'',
      ''floralwhite'', ''forestgreen'', ''fuchsia'', ''gainsboro'', ''ghostwhite'', ''gold'',
      ''goldenrod'', ''gray'', ''green'', ''greenyellow'', ''grey'', ''honeydew'', ''hotpink'',
      ''indianred'', ''indigo'', ''ivory'', ''khaki'', ''lavender'', ''lavenderblush'',
      ''lawngreen'', ''lemonchiffon'', ''lightblue'', ''lightcoral'', ''lightcyan'',
      ''lightgoldenrodyellow'', ''lightgray'', ''lightgreen'', ''lightgrey'', ''lightpink'',
      ''lightsalmon'', ''lightseagreen'', ''lightskyblue'', ''lightslategray'',
      ''lightslategrey'', ''lightsteelblue'', ''lightyellow'', ''lime'', ''limegreen'', ''linen'',
      ''magenta'', ''maroon'', ''mediumaquamarine'', ''mediumblue'', ''mediumorchid'',
      ''mediumpurple'', ''mediumseagreen'', ''mediumslateblue'', ''mediumspringgreen'',
      ''mediumturquoise'', ''mediumvioletred'', ''midnightblue'', ''mintcream'', ''mistyrose'',
      ''moccasin'', ''navajowhite'', ''navy'', ''oldlace'', ''olive'', ''olivedrab'', ''orange'',
      ''orangered'', ''orchid'', ''palegoldenrod'', ''palegreen'', ''paleturquoise'',
      ''palevioletred'', ''papayawhip'', ''peachpuff'', ''peru'', ''pink'', ''plum'',
      ''powderblue'', ''purple'', ''rebeccapurple'', ''red'', ''rosybrown'', ''royalblue'',
      ''saddlebrown'', ''salmon'', ''sandybrown'', ''seagreen'', ''seashell'', ''sienna'',
      ''silver'', ''skyblue'', ''slateblue'', ''slategray'', ''slategrey'', ''snow'',
      ''springgreen'', ''steelblue'', ''tan'', ''teal'', ''thistle'', ''tomato'', ''transparent'',
      ''turquoise'', ''violet'', ''wheat'', ''white'', ''whitesmoke'', ''yellow'',
      ''yellowgreen'']"

text \<open>Characters by their ASCII codes: \<open>A\<close> to \<open>Z\<close> are 65 to 90, \<open>a\<close> is 97, \<open>0\<close> is 48.\<close>

definition lower_case :: "char \<Rightarrow> char" where
  "lower_case c =
     (let n = of_char c :: nat in if 65 \<le> n \<and> n \<le> 90 then char_of (n + 32) else c)"

definition hex_digit :: "char \<Rightarrow> bool" where
  "hex_digit c =
     (let n = of_char c :: nat
      in (48 \<le> n \<and> n \<le> 57) \<or> (97 \<le> n \<and> n \<le> 102) \<or> (65 \<le> n \<and> n \<le> 70))"

fun css_color :: "string \<Rightarrow> bool" where
  "css_color (c # cs) =
     (if c = CHR ''#'' then length cs \<in> {3, 4, 6, 8} \<and> list_all hex_digit cs
      else map lower_case (c # cs) \<in> set css_named_colors)"
| "css_color [] = False"

definition fresh_context :: "Context2D" where
  "fresh_context =
     \<lparr>strokeStyle = ''#000000'', lineCap = ''butt'', lineWidth = 1, drawn = [],
      is_color = css_color\<rparr>"

definition fresh_element :: "HTMLCanvasElement" where
  "fresh_element = \<lparr>elem_width = 300, elem_height = 150, context2d = fresh_context\<rparr>"

definition fresh_world :: "'w \<Rightarrow> 'w World" where
  "fresh_world h = \<lparr>console = [], host = h\<rparr>"

definition origin :: "DOMRect" where
  "origin = \<lparr>rect_left = 0, rect_top = 0\<rparr>"

text \<open>
  Listeners of a host that counts the calls it has received: one vetoes its first call
  and accepts every later one, one accepts always, one vetoes always, one throws always.
\<close>

definition veto_once :: "nat callback" where
  "veto_once b n = (Returned (0 < n), Suc n)"

definition accept_always :: "nat callback" where
  "accept_always b n = (Returned True, Suc n)"

definition veto_always :: "nat callback" where
  "veto_always b n = (Returned False, Suc n)"

definition throw_always :: "nat callback" where
  "throw_always b n = (Threw ''Error: no'', Suc n)"

text \<open>
  A new canvas on which the listeners \<open>cs\<close> have been registered and a drag is under way:
  the pointer went down at (10,10) and has moved to (50,40). Its provisional rectangle is
  \<open>red_box\<close>.
\<close>

definition mid_drag :: "'w callback list \<Rightarrow> 'w \<Rightarrow> 'w Canvas \<times> 'w World" where
  "mid_drag cs h =
     run (map CallAddSaveListener cs @
          [MouseDown (mouse_at origin 10 10) origin, MouseMove (mouse_at origin 50 40) origin])
       (Canvas_new fresh_element 300 150, fresh_world h)"

definition red_box :: "Box" where
  "red_box = \<lparr>posX = Num 10, posY = Num 10, width = Num 40, height = Num 30, color = ''red''\<rparr>"

definition yellow_box :: "Box" where
  "yellow_box = \<lparr>posX = Num 0, posY = Num 0, width = Num 0, height = Num 0, color = ''yellow''\<rparr>"

text \<open>Two completed drags on a new canvas without listeners: the scenario of C5.\<close>

definition two_drags :: "unit Canvas \<times> unit World" where
  "two_drags =
     run (drag (mouse_at origin 10 10, origin) [(mouse_at origin 50 40, origin)] (mouse_at origin 50 40)
          @ drag (mouse_at origin 0 0, origin) [(mouse_at origin 0 0, origin)] (mouse_at origin 0 0))
       (Canvas_new fresh_element 300 150, fresh_world ())"

text \<open>The same two drags, and a third under way: down at (5,5), moved to (25,15).\<close>

definition third_drag :: "unit Canvas \<times> unit World" where
  "third_drag =
     run [MouseDown (mouse_at origin 5 5) origin, MouseMove (mouse_at origin 25 15) origin]
       two_drags"

text \<open>
  A host that gives \<open>setColor\<close> a string that is no color: it calls \<open>setColor('junk')\<close>, two
  drags follow, it calls \<open>setColor('green')\<close>, and a pointer-up arrives.
\<close>

definition junk_page :: "unit Canvas \<times> unit World" where
  "junk_page =
     run (CallSetColor ''junk''
          # drag (mouse_at origin 10 10, origin) [(mouse_at origin 50 40, origin)] (mouse_at origin 50 40)
          @ drag (mouse_at origin 0 0, origin) [(mouse_at origin 0 0, origin)] (mouse_at origin 0 0)
          @ [CallSetColor ''green'', MouseUp (mouse_at origin 0 0)])
       (Canvas_new fresh_element 300 150, fresh_world ())"

section \<open>Basic facts\<close>

subsection \<open>What \<open>refresh\<close> and the handlers leave alone\<close>

text \<open>\<open>refresh\<close> changes nothing of the canvas object but its drawing context.\<close>

lemma refresh_item_frame: "refresh_item it s = s\<lparr>ctx := ctx (refresh_item it s)\<rparr>"
  by (cases it) (simp_all add: setColor_def Let_def)

lemma refresh_loop_frame: "refresh_loop its s = s\<lparr>ctx := ctx (refresh_loop its s)\<rparr>"
proof (induction its arbitrary: s)
  case Nil
  show ?case by simp
next
  case (Cons it its)
  have "refresh_loop (it # its) s = refresh_loop its (refresh_item it s)" by simp
  also have "\<dots> = (refresh_item it s)\<lparr>ctx := ctx (refresh_loop its (refresh_item it s))\<rparr>"
    by (rule Cons.IH)
  also have "\<dots> = s\<lparr>ctx := ctx (refresh_loop its (refresh_item it s))\<rparr>"
    by (subst refresh_item_frame) simp
  finally show ?case by simp
qed

lemma refresh_frame: "refresh s = s\<lparr>ctx := ctx (refresh s)\<rparr>"
  unfolding refresh_def by (subst refresh_loop_frame) simp

lemma refresh_fields:
  "boxes (refresh s) = boxes s"
  "currentBox (refresh s) = currentBox s"
  "xstartPosition (refresh s) = xstartPosition s"
  "ystartPosition (refresh s) = ystartPosition s"
  "canDraw (refresh s) = canDraw s"
  "currentColor (refresh s) = currentColor s"
  "colorGenerator (refresh s) = colorGenerator s"
  "saveCallbacks (refresh s) = saveCallbacks s"
  "canvas (refresh s) = canvas s"
  by (subst refresh_frame, simp)+

lemma take_color_fields:
  "boxes (snd (take_color s)) = boxes s"
  "currentBox (snd (take_color s)) = currentBox s"
  "xstartPosition (snd (take_color s)) = xstartPosition s"
  "ystartPosition (snd (take_color s)) = ystartPosition s"
  "canDraw (snd (take_color s)) = canDraw s"
  "saveCallbacks (snd (take_color s)) = saveCallbacks s"
  "canvas (snd (take_color s)) = canvas s"
  "currentColor (snd (take_color s)) = Some (fst (take_color s))"
  "colorGenerator (snd (take_color s)) =
     (if currentColor s = None then snd (gen_next (colorGenerator s)) else colorGenerator s)"
  "fst (take_color s) =
     (case currentColor s of None \<Rightarrow> fst (gen_next (colorGenerator s)) | Some c \<Rightarrow> c)"
  by (simp_all add: take_color_def setColor_def split: option.split prod.split)

lemma drawRectangle_fields:
  assumes "canDraw s"
  shows "boxes (drawRectangle e r s) = boxes s"
    and "xstartPosition (drawRectangle e r s) = xstartPosition s"
    and "ystartPosition (drawRectangle e r s) = ystartPosition s"
    and "canDraw (drawRectangle e r s)"
    and "saveCallbacks (drawRectangle e r s) = saveCallbacks s"
    and "canvas (drawRectangle e r s) = canvas s"
    and "currentBox (drawRectangle e r s) =
           Some \<lparr>posX = xstartPosition s, posY = ystartPosition s,
                 width = sub (sub (Num (clientX e)) (xstartPosition s)) (Num (xCorrection r)),
                 height = sub (sub (Num (clientY e)) (ystartPosition s)) (Num (yCorrection r)),
                 color = (case currentColor s of None \<Rightarrow> fst (gen_next (colorGenerator s)) | Some c \<Rightarrow> c)\<rparr>"
    and "currentColor (drawRectangle e r s) =
           Some (case currentColor s of None \<Rightarrow> fst (gen_next (colorGenerator s)) | Some c \<Rightarrow> c)"
    and "colorGenerator (drawRectangle e r s) =
           (if currentColor s = None then snd (gen_next (colorGenerator s)) else colorGenerator s)"
  using assms
  by (simp_all add: drawRectangle_def Let_def split_beta take_color_fields refresh_fields split: option.split)


lemma onMouseDown_fields:
  "boxes (onMouseDown e r s) = boxes s"
  "canDraw (onMouseDown e r s)"
  "saveCallbacks (onMouseDown e r s) = saveCallbacks s"
  "currentBox (onMouseDown e r s) = currentBox s"
  "currentColor (onMouseDown e r s) = currentColor s"
  "colorGenerator (onMouseDown e r s) = colorGenerator s"
  "xstartPosition (onMouseDown e r s) = Num (clientX e - rect_left r)"
  "ystartPosition (onMouseDown e r s) = Num (clientY e - rect_top r)"
  by (simp_all add: onMouseDown_def xCorrection_def yCorrection_def)

subsection \<open>The generator's counter\<close>

lemma next_times_gen:
  "next_times k g =
     (map (\<lambda>i. googColors ! ((currentNumber g + i) mod length googColors)) [1..<Suc k],
      \<lparr>currentNumber = currentNumber g + k\<rparr>)"
proof (induction k arbitrary: g)
  case 0
  show ?case by simp
next
  case (Suc k)
  have shift: "[Suc 0..<Suc (Suc k)] = Suc 0 # map Suc [Suc 0..<Suc k]"
    by (subst upt_rec) (simp add: map_Suc_upt del: upt_Suc)
  show ?case
    using Suc [of "snd (gen_next g)"]
    by (simp add: shift gen_next_def Let_def comp_def del: upt_Suc)
qed

lemma gen_next_counter: "currentNumber (snd (gen_next g)) = Suc (currentNumber g)"
  by (simp add: gen_next_def Let_def)

lemma saveCurrentBox_generator: "colorGenerator (fst (saveCurrentBox s w)) = colorGenerator s"
  by (simp add: saveCurrentBox_def split: prod.split Decision.split option.split)

lemma step_generator_mono:
  "currentNumber (colorGenerator s) \<le> currentNumber (colorGenerator (fst (step op (s, w))))"
proof (cases op)
  case (MouseMove e r)
  show ?thesis
  proof (cases "canDraw s")
    case True
    then show ?thesis
      by (simp add: MouseMove onDraw_def drawRectangle_fields gen_next_counter)
  next
    case False
    then show ?thesis by (simp add: MouseMove onDraw_def drawRectangle_def)
  qed
next
  case (MouseUp e)
  then show ?thesis
    by (simp add: onMouseUp_def split_beta saveCurrentBox_generator)
qed (simp_all add: onMouseDown_def refresh_fields setPicture_def setColor_def
       addSaveListener_def setupCanvas_def setupPen_def)

lemma run_generator_mono:
  "currentNumber (colorGenerator (fst sw)) \<le> currentNumber (colorGenerator (fst (run ops sw)))"
proof (induction ops arbitrary: sw)
  case Nil
  show ?case by simp
next
  case (Cons op ops)
  have "currentNumber (colorGenerator (fst sw)) \<le> currentNumber (colorGenerator (fst (step op sw)))"
    using step_generator_mono [of "fst sw" op "snd sw"] by simp
  also have "\<dots> \<le> currentNumber (colorGenerator (fst (run ops (step op sw))))"
    by (rule Cons.IH)
  finally show ?case by simp
qed

subsection \<open>The committed list and whole drags\<close>

lemma run_append: "run (ops1 @ ops2) sw = run ops2 (run ops1 sw)"
  by (induction ops1 arbitrary: sw) simp_all

lemma saveCurrentBox_boxes:
  "boxes (fst (saveCurrentBox s w)) = boxes s
   \<or> (\<exists>box. currentBox s = Some box \<and> boxes (fst (saveCurrentBox s w)) = boxes s @ [BoxItem box])"
  by (simp add: saveCurrentBox_def split: prod.split Decision.split option.split)

lemma drawRectangle_boxes: "boxes (drawRectangle e r s) = boxes s"
  by (cases "canDraw s") (simp_all add: drawRectangle_fields, simp add: drawRectangle_def)

lemma step_boxes:
  "\<exists>zs. boxes (fst (step op (s, w))) = boxes s @ zs \<and> length zs \<le> 1"
proof (cases op)
  case (MouseUp e)
  have "boxes (fst (onMouseUp e s w)) =
          boxes (fst (saveCurrentBox
            (s\<lparr>canDraw := False, xstartPosition := PosInfinity, ystartPosition := PosInfinity\<rparr>) w))"
    by (simp add: onMouseUp_def split_beta)
  then show ?thesis
    using saveCurrentBox_boxes
      [of "s\<lparr>canDraw := False, xstartPosition := PosInfinity, ystartPosition := PosInfinity\<rparr>" w]
    by (auto simp: MouseUp)
qed (simp_all add: onMouseDown_def onDraw_def drawRectangle_boxes refresh_fields setPicture_def
       setColor_def addSaveListener_def setupCanvas_def setupPen_def)

lemma step_boxes_prefix: "prefix (boxes (fst sw)) (boxes (fst (step op sw)))"
  using step_boxes [of op "fst sw" "snd sw"] by (auto simp: prefix_def)

lemma run_boxes_prefix: "prefix (boxes (fst sw)) (boxes (fst (run ops sw)))"
proof (induction ops arbitrary: sw)
  case Nil
  show ?case by simp
next
  case (Cons op ops)
  have "prefix (boxes (fst sw)) (boxes (fst (step op sw)))"
    by (rule step_boxes_prefix)
  also have "prefix \<dots> (boxes (fst (run ops (step op sw))))"
    by (rule Cons.IH)
  finally show ?case by simp
qed

lemma Canvas_new_fields:
  "saveCallbacks (Canvas_new el a b) = []"
  "currentColor (Canvas_new el a b) = None"
  "boxes (Canvas_new el a b) = []"
  "colorGenerator (Canvas_new el a b) = getRandomColor"
  "currentBox (Canvas_new el a b) = None"
  "\<not> canDraw (Canvas_new el a b)"
  by (simp_all add: Canvas_new_def setupSize_def)

lemma localX_mouse_at: "localX (mouse_at r x y, r) = x" "localY (mouse_at r x y, r) = y"
  by (simp_all add: localX_def localY_def mouse_at_def)

lemma run_moves:
  "canDraw s \<Longrightarrow>
     snd (run (moves (ms @ [m])) (s, w)) = w
     \<and> canDraw (fst (run (moves (ms @ [m])) (s, w)))
     \<and> boxes (fst (run (moves (ms @ [m])) (s, w))) = boxes s
     \<and> saveCallbacks (fst (run (moves (ms @ [m])) (s, w))) = saveCallbacks s
     \<and> xstartPosition (fst (run (moves (ms @ [m])) (s, w))) = xstartPosition s
     \<and> ystartPosition (fst (run (moves (ms @ [m])) (s, w))) = ystartPosition s
     \<and> currentColor (fst (run (moves (ms @ [m])) (s, w))) = Some (fst (take_color s))
     \<and> colorGenerator (fst (run (moves (ms @ [m])) (s, w))) = colorGenerator (snd (take_color s))
     \<and> currentBox (fst (run (moves (ms @ [m])) (s, w))) =
         Some \<lparr>posX = xstartPosition s, posY = ystartPosition s,
               width = sub (sub (Num (clientX (fst m))) (xstartPosition s)) (Num (rect_left (snd m))),
               height = sub (sub (Num (clientY (fst m))) (ystartPosition s)) (Num (rect_top (snd m))),
               color = fst (take_color s)\<rparr>"
proof (induction ms arbitrary: s)
  case Nil
  then show ?case
    by (simp add: moves_def onDraw_def drawRectangle_fields take_color_fields
          xCorrection_def yCorrection_def)
next
  case (Cons p ms)
  let ?s1 = "drawRectangle (fst p) (snd p) s"
  have s1: "canDraw ?s1" "boxes ?s1 = boxes s" "saveCallbacks ?s1 = saveCallbacks s"
    "xstartPosition ?s1 = xstartPosition s" "ystartPosition ?s1 = ystartPosition s"
    "currentColor ?s1 = Some (fst (take_color s))"
    "colorGenerator ?s1 = colorGenerator (snd (take_color s))"
    using Cons.prems by (simp_all add: drawRectangle_fields take_color_fields)
  have tc: "fst (take_color ?s1) = fst (take_color s)"
    "colorGenerator (snd (take_color ?s1)) = colorGenerator (snd (take_color s))"
    by (simp_all add: take_color_fields s1)
  have run1: "run (moves ((p # ms) @ [m])) (s, w) = run (moves (ms @ [m])) (?s1, w)"
    by (simp add: moves_def onDraw_def)
  show ?case
    unfolding run1 using Cons.IH [OF s1(1)] by (simp add: s1 tc)
qed

lemma run_moves_keep_color:
  assumes "canDraw s" "currentColor s = Some c"
  shows "currentColor (fst (run (moves ms) (s, w))) = Some c
     \<and> colorGenerator (fst (run (moves ms) (s, w))) = colorGenerator s
     \<and> canDraw (fst (run (moves ms) (s, w)))"
proof (cases ms rule: rev_cases)
  case Nil
  then show ?thesis using assms by (simp add: moves_def)
next
  case (snoc ms' m)
  have "take_color s = (c, s)" using assms(2) by (simp add: take_color_def)
  then show ?thesis
    using run_moves [OF assms(1), of ms' m w] by (simp add: snoc)
qed

lemma onMouseUp_color:
  "currentColor (fst (onMouseUp u s w)) = None"
  "colorGenerator (fst (onMouseUp u s w)) = colorGenerator s"
  by (simp_all add: onMouseUp_def split_beta saveCurrentBox_generator)

lemma first_move_takes_color:
  assumes "currentColor s = None"
  shows "colorGenerator (onDraw (fst m) (snd m) (onMouseDown (fst d) (snd d) s))
           = snd (gen_next (colorGenerator s))"
    and "currentColor (onDraw (fst m) (snd m) (onMouseDown (fst d) (snd d) s))
           = Some (fst (gen_next (colorGenerator s)))"
    and "canDraw (onDraw (fst m) (snd m) (onMouseDown (fst d) (snd d) s))"
  using assms by (simp_all add: onDraw_def drawRectangle_fields onMouseDown_fields)

lemma onMouseUp_no_listeners:
  "saveCallbacks s = [] \<Longrightarrow>
     onMouseUp u s w =
       ((case currentBox s of
           Some box \<Rightarrow> s\<lparr>boxes := boxes s @ [BoxItem box], currentBox := None\<rparr>
         | None \<Rightarrow> s)
        \<lparr>canDraw := False, xstartPosition := PosInfinity, ystartPosition := PosInfinity,
          currentColor := None\<rparr>, w)"
  by (simp add: onMouseUp_def saveCurrentBox_def split: option.split)

lemma drag_result:
  assumes "saveCallbacks s = []"
  shows "snd (run (drag d (ms @ [m]) u) (s, w)) = w
     \<and> boxes (fst (run (drag d (ms @ [m]) u) (s, w))) =
         boxes s @
         [BoxItem \<lparr>posX = Num (localX d), posY = Num (localY d),
                   width = Num (localX m - localX d), height = Num (localY m - localY d),
                   color = fst (take_color s)\<rparr>]
     \<and> currentBox (fst (run (drag d (ms @ [m]) u) (s, w))) = None
     \<and> currentColor (fst (run (drag d (ms @ [m]) u) (s, w))) = None
     \<and> saveCallbacks (fst (run (drag d (ms @ [m]) u) (s, w))) = []
     \<and> colorGenerator (fst (run (drag d (ms @ [m]) u) (s, w))) = colorGenerator (snd (take_color s))"
proof -
  let ?s1 = "onMouseDown (fst d) (snd d) s"
  obtain s2 w2 where r2: "run (moves (ms @ [m])) (?s1, w) = (s2, w2)"
    by (cases "run (moves (ms @ [m])) (?s1, w)")
  have tc: "fst (take_color ?s1) = fst (take_color s)"
    "colorGenerator (snd (take_color ?s1)) = colorGenerator (snd (take_color s))"
    by (simp_all add: take_color_fields onMouseDown_fields split: option.split)
  have down: "canDraw ?s1" by (simp add: onMouseDown_fields)
  have s2: "w2 = w" "boxes s2 = boxes s" "saveCallbacks s2 = []"
    "colorGenerator s2 = colorGenerator (snd (take_color s))"
    "currentBox s2 =
       Some \<lparr>posX = Num (localX d), posY = Num (localY d),
             width = Num (localX m - localX d), height = Num (localY m - localY d),
             color = fst (take_color s)\<rparr>"
    using run_moves [OF down, of ms m w] assms
    by (simp_all add: r2 tc onMouseDown_fields localX_def localY_def algebra_simps)
  have "run (drag d (ms @ [m]) u) (s, w) = onMouseUp u s2 w2"
    using r2 by (simp add: drag_def run_append del: moves_def)
  then show ?thesis
    by (simp add: onMouseUp_no_listeners s2)
qed

subsection \<open>The save pipeline\<close>

lemma length_answers: "length (answers cs b h) = length cs"
  by (induction cs arbitrary: h) simp_all

lemma first_veto_Cons:
  "first_veto (cb # rest) b h =
     (if fst (cb b h) = Returned True then Suc (first_veto rest b (snd (cb b h))) else 0)"
  by (simp add: first_veto_def)

lemma callbacks_loop_evaluate: "callbacks_loop cs b w = evaluate cs b w"
proof (induction cs arbitrary: w)
  case Nil
  show ?case by (simp add: evaluate_def first_veto_def)
next
  case (Cons cb rest)
  obtain out h1 where call: "cb b (host w) = (out, h1)"
    by (cases "cb b (host w)")
  show ?case
  proof (cases out)
    case (Threw err)
    then show ?thesis
      using call by (simp add: evaluate_def first_veto_Cons)
  next
    case (Returned res)
    show ?thesis
    proof (cases res)
      case False
      then show ?thesis
        using call Returned by (simp add: evaluate_def first_veto_Cons)
    next
      case True
      have "callbacks_loop (cb # rest) b w = evaluate rest b (w\<lparr>host := h1\<rparr>)"
        using call Returned True Cons.IH by simp
      also have "\<dots> = evaluate (cb # rest) b w"
        using call Returned True
        by (simp add: evaluate_def first_veto_Cons Let_def)
      finally show ?thesis .
    qed
  qed
qed

lemma callbacks_loop_reject_append:
  "fst (callbacks_loop cs b w) = Reject \<Longrightarrow>
     callbacks_loop (cs @ later) b w = callbacks_loop cs b w"
proof (induction cs arbitrary: w)
  case Nil
  then show ?case by simp
next
  case (Cons cb rest)
  then show ?case
    by (cases "cb b (host w)") (auto split: outcome.splits if_splits)
qed

lemma evaluate_decision:
  "fst (evaluate cs b w) = (if first_veto cs b (host w) = length cs then Accept else Reject)"
  by (simp add: evaluate_def Let_def)

lemma run_add_listeners:
  "run (map CallAddSaveListener cs) (s, w) = (s\<lparr>saveCallbacks := saveCallbacks s @ cs\<rparr>, w)"
proof (induction cs arbitrary: s)
  case Nil
  show ?case by simp
next
  case (Cons cb cs)
  show ?case by (simp add: Cons.IH addSaveListener_def)
qed

lemma mid_drag_fields:
  "snd (mid_drag cs h) = fresh_world h"
  "saveCallbacks (fst (mid_drag cs h)) = cs"
  "boxes (fst (mid_drag cs h)) = []"
  "currentBox (fst (mid_drag cs h)) = Some red_box"
proof -
  let ?s0 = "(Canvas_new fresh_element 300 150 :: 'a Canvas)\<lparr>saveCallbacks := cs\<rparr>"
  let ?s1 = "onMouseDown (mouse_at origin 10 10) origin ?s0"
  have md: "mid_drag cs h = (drawRectangle (mouse_at origin 50 40) origin ?s1, fresh_world h)"
    by (simp add: mid_drag_def run_append run_add_listeners Canvas_new_fields onDraw_def)
  have down: "canDraw ?s1" by (simp add: onMouseDown_fields)
  show "snd (mid_drag cs h) = fresh_world h" by (simp add: md)
  show "saveCallbacks (fst (mid_drag cs h)) = cs"
    by (simp add: md drawRectangle_fields [OF down] onMouseDown_fields)
  show "boxes (fst (mid_drag cs h)) = []"
    by (simp add: md drawRectangle_fields [OF down] onMouseDown_fields Canvas_new_fields)
  show "currentBox (fst (mid_drag cs h)) = Some red_box"
    unfolding md
    using drawRectangle_fields(7) [OF down, of "mouse_at origin 50 40" origin]
    by (simp add: onMouseDown_fields Canvas_new_fields red_box_def mouse_at_def origin_def
        xCorrection_def yCorrection_def gen_next_def getRandomColor_def googColors_def)
qed

subsection \<open>What one \<open>refresh\<close> draws\<close>

lemma assign_strokeStyle_keeps:
  "is_color (assign_strokeStyle c cx) = is_color cx"
  "lineCap (assign_strokeStyle c cx) = lineCap cx"
  "lineWidth (assign_strokeStyle c cx) = lineWidth cx"
  "drawn (assign_strokeStyle c cx) = drawn cx"
  by (cases c, simp_all)+

lemma refresh_item_keeps:
  "is_color (ctx (refresh_item it s)) = is_color (ctx s)"
  "lineCap (ctx (refresh_item it s)) = lineCap (ctx s)"
  "lineWidth (ctx (refresh_item it s)) = lineWidth (ctx s)"
  "canvas (refresh_item it s) = canvas s"
  by (cases it,
      simp_all add: setColor_def strokeRect_def drawImage_def Let_def assign_strokeStyle_keeps)+

lemma refresh_item_drawn:
  "item_parses (ctx s) it \<Longrightarrow>
     drawn (ctx (refresh_item it s)) =
       drawn (ctx s) @ [item_call (canvas s) (lineCap (ctx s)) (lineWidth (ctx s)) it]"
  by (cases it)
     (simp_all add: setColor_def strokeRect_def drawImage_def Let_def assign_strokeStyle_keeps)

lemma refresh_item_appends:
  "\<exists>call. drawn (ctx (refresh_item it s)) = drawn (ctx s) @ [call]"
  by (cases it)
     (simp_all add: setColor_def strokeRect_def drawImage_def Let_def assign_strokeStyle_keeps)

lemma item_parses_cong: "is_color cx' = is_color cx \<Longrightarrow> item_parses cx' = item_parses cx"
proof
  fix it
  assume "is_color cx' = is_color cx"
  then show "item_parses cx' it = item_parses cx it" by (cases it) simp_all
qed

lemma refresh_loop_keeps:
  "is_color (ctx (refresh_loop its s)) = is_color (ctx s)
   \<and> lineCap (ctx (refresh_loop its s)) = lineCap (ctx s)
   \<and> lineWidth (ctx (refresh_loop its s)) = lineWidth (ctx s)"
  by (induction its arbitrary: s) (simp_all add: refresh_item_keeps)

lemma refresh_loop_appends:
  "\<exists>out. drawn (ctx (refresh_loop its s)) = drawn (ctx s) @ out"
proof (induction its arbitrary: s)
  case Nil
  show ?case by simp
next
  case (Cons it its)
  obtain call where one: "drawn (ctx (refresh_item it s)) = drawn (ctx s) @ [call]"
    using refresh_item_appends by blast
  obtain out where rest:
    "drawn (ctx (refresh_loop its (refresh_item it s))) = drawn (ctx (refresh_item it s)) @ out"
    using Cons.IH by blast
  show ?case by (simp add: one rest)
qed

lemma refresh_loop_drawn:
  "list_all (item_parses (ctx s)) its \<Longrightarrow>
     drawn (ctx (refresh_loop its s)) =
       drawn (ctx s) @ map (item_call (canvas s) (lineCap (ctx s)) (lineWidth (ctx s))) its"
proof (induction its arbitrary: s)
  case Nil
  show ?case by simp
next
  case (Cons it its)
  have same: "item_parses (ctx (refresh_item it s)) = item_parses (ctx s)"
    by (rule item_parses_cong) (simp add: refresh_item_keeps)
  have "list_all (item_parses (ctx (refresh_item it s))) its"
    using Cons.prems by (simp add: same)
  then have "drawn (ctx (refresh_loop its (refresh_item it s))) =
      drawn (ctx (refresh_item it s)) @
      map (item_call (canvas (refresh_item it s)) (lineCap (ctx (refresh_item it s)))
             (lineWidth (ctx (refresh_item it s)))) its"
    by (rule Cons.IH)
  then show ?case
    using Cons.prems by (simp add: refresh_item_keeps refresh_item_drawn)
qed

lemma refresh_keeps:
  "is_color (ctx (refresh s)) = is_color (ctx s)"
  "lineCap (ctx (refresh s)) = lineCap (ctx s)"
  "lineWidth (ctx (refresh s)) = lineWidth (ctx s)"
  by (simp_all add: refresh_def refresh_loop_keeps clearRect_def)

lemma refresh_appends: "drawn (ctx (refresh s)) = drawn (ctx s) @ rendered s"
proof -
  let ?s0 = "s\<lparr>ctx := clearRect (Num 0) (Num 0) (Num (elem_width (canvas s)))
                         (Num (elem_height (canvas s))) (ctx s)\<rparr>"
  obtain out where "drawn (ctx (refresh_loop (boxes s) ?s0)) = drawn (ctx ?s0) @ out"
    using refresh_loop_appends [of "boxes s" ?s0] by blast
  then have "drawn (ctx (refresh s)) =
      drawn (ctx s) @
      ClearRect (Num 0) (Num 0) (Num (elem_width (canvas s))) (Num (elem_height (canvas s))) # out"
    by (simp add: refresh_def clearRect_def)
  then show ?thesis by (simp add: rendered_def)
qed

lemma rendered_eq:
  "colors_parse s \<Longrightarrow>
     rendered s =
       ClearRect (Num 0) (Num 0) (Num (elem_width (canvas s))) (Num (elem_height (canvas s)))
       # map (item_call (canvas s) (lineCap (ctx s)) (lineWidth (ctx s))) (boxes s)"
proof -
  assume ok: "colors_parse s"
  let ?s0 = "s\<lparr>ctx := clearRect (Num 0) (Num 0) (Num (elem_width (canvas s)))
                         (Num (elem_height (canvas s))) (ctx s)\<rparr>"
  have "item_parses (ctx ?s0) = item_parses (ctx s)"
    by (rule item_parses_cong) (simp add: clearRect_def)
  then have "list_all (item_parses (ctx ?s0)) (boxes s)"
    using ok by (simp add: colors_parse_def)
  then have "drawn (ctx (refresh_loop (boxes s) ?s0)) =
      drawn (ctx ?s0) @ map (item_call (canvas ?s0) (lineCap (ctx ?s0)) (lineWidth (ctx ?s0))) (boxes s)"
    by (rule refresh_loop_drawn)
  then show ?thesis
    by (simp add: rendered_def refresh_def clearRect_def)
qed

lemma colors_parse_refresh: "colors_parse (refresh s) = colors_parse s"
proof -
  have "item_parses (ctx (refresh s)) = item_parses (ctx s)"
    by (rule item_parses_cong) (simp add: refresh_keeps)
  then show ?thesis by (simp add: colors_parse_def refresh_fields)
qed

lemma refresh_item_currentColor: "currentColor (refresh_item it s) = currentColor s"
  by (subst refresh_item_frame) simp

lemma refresh_item_strokeStyle:
  "currentColor s = Some (strokeStyle (ctx s)) \<Longrightarrow> is_color (ctx s) (strokeStyle (ctx s)) \<Longrightarrow>
     strokeStyle (ctx (refresh_item it s)) = strokeStyle (ctx s)"
  by (cases it) (simp_all add: setColor_def strokeRect_def drawImage_def Let_def)

subsection \<open>The colors a canvas holds\<close>

lemma gen_next_palette: "fst (gen_next g) \<in> set googColors"
proof -
  have "Suc (currentNumber g) mod length googColors < length googColors"
    by (simp add: googColors_def)
  then have "googColors ! (Suc (currentNumber g) mod length googColors) \<in> set googColors"
    by (rule nth_mem)
  then show ?thesis by (simp add: gen_next_def Let_def)
qed

lemma take_color_ctx:
  "is_color (ctx (snd (take_color s))) = is_color (ctx s)"
  by (simp add: take_color_def setColor_def assign_strokeStyle_keeps split: option.split prod.split)

lemma drawRectangle_is_color: "is_color (ctx (drawRectangle e r s)) = is_color (ctx s)"
  by (simp add: drawRectangle_def Let_def split_beta take_color_ctx refresh_keeps strokeRect_def)

lemma colors_parse_cong:
  "is_color (ctx t) = is_color (ctx s) \<Longrightarrow> boxes t = boxes s \<Longrightarrow> colors_parse t = colors_parse s"
  using item_parses_cong [of "ctx t" "ctx s"] by (simp add: colors_parse_def)

lemma colors_inv_onDraw:
  assumes inv: "colors_inv ok s" and pal: "list_all ok googColors"
  shows "colors_inv ok (onDraw e r s)"
proof (cases "canDraw s")
  case False
  then show ?thesis using inv by (simp add: onDraw_def drawRectangle_def)
next
  case True
  have col: "ok (case currentColor s of None \<Rightarrow> fst (gen_next (colorGenerator s)) | Some c \<Rightarrow> c)"
    using inv pal gen_next_palette [of "colorGenerator s"]
    by (auto simp: colors_inv_def list_all_iff split: option.splits)
  have "colors_parse (drawRectangle e r s) = colors_parse s"
    by (rule colors_parse_cong) (simp_all add: drawRectangle_is_color drawRectangle_fields [OF True])
  then show ?thesis
    using inv col
    by (simp add: onDraw_def colors_inv_def drawRectangle_is_color drawRectangle_fields [OF True])
qed

lemma colors_inv_onMouseUp:
  assumes inv: "colors_inv ok s"
  shows "colors_inv ok (fst (onMouseUp u s w))"
  using inv
  by (auto simp: onMouseUp_def saveCurrentBox_def colors_inv_def colors_parse_def
      split: prod.splits Decision.splits option.splits)

lemma colors_inv_step:
  assumes inv: "colors_inv ok s" and pal: "list_all ok googColors" and op: "op_parses ok op"
  shows "colors_inv ok (fst (step op (s, w)))"
proof (cases op)
  case (MouseDown e r)
  then show ?thesis using inv by (simp add: onMouseDown_def colors_inv_def colors_parse_def)
next
  case (MouseMove e r)
  then show ?thesis using colors_inv_onDraw [OF inv pal] by simp
next
  case (MouseUp u)
  then show ?thesis using colors_inv_onMouseUp [OF inv] by simp
next
  case ImageLoaded
  then show ?thesis
    using inv by (simp add: colors_inv_def colors_parse_refresh refresh_keeps refresh_fields)
next
  case (CallSetPicture path)
  then show ?thesis using inv by (simp add: setPicture_def colors_inv_def colors_parse_def)
next
  case (CallSetColor c)
  have "colors_parse (setColor (Some c) s) = colors_parse s"
    by (rule colors_parse_cong) (simp_all add: setColor_def assign_strokeStyle_keeps)
  then show ?thesis
    using inv op CallSetColor
    by (simp add: colors_inv_def) (simp add: setColor_def assign_strokeStyle_keeps)
next
  case (CallAddSaveListener cb)
  then show ?thesis using inv by (simp add: addSaveListener_def colors_inv_def colors_parse_def)
next
  case CallSetup
  have "colors_parse (setupPen s) = colors_parse s"
    by (rule colors_parse_cong) (simp_all add: setupPen_def)
  then show ?thesis
    using inv CallSetup
    by (simp add: setupCanvas_def colors_inv_def) (simp add: setupPen_def)
qed

lemma colors_inv_run:
  "colors_inv ok (fst sw) \<Longrightarrow> list_all ok googColors \<Longrightarrow> list_all (op_parses ok) ops \<Longrightarrow>
     colors_inv ok (fst (run ops sw))"
proof (induction ops arbitrary: sw)
  case Nil
  then show ?case by simp
next
  case (Cons op ops)
  have "colors_inv ok (fst (step op (fst sw, snd sw)))"
    using Cons.prems by (intro colors_inv_step) simp_all
  then show ?case using Cons by simp
qed

lemma colors_inv_new: "colors_inv (is_color (context2d el)) (Canvas_new el a b)"
  by (simp add: colors_inv_def colors_parse_def Canvas_new_def setupSize_def)

lemma css_palette: "list_all css_color googColors"
  by code_simp

section \<open>The claims\<close>

text \<open>
  C1, the code at the failing input. A listener vetoes the first rectangle it is shown
  and accepts from then on. The pointer-up that ends the drag is rejected: nothing is
  committed, but the provisional slot still holds the rectangle, because \<open>saveCurrentBox\<close>
  returns before it reaches the assignment that empties the slot. A later click, a
  pointer-down and a pointer-up with no move between them, commits that rectangle. The
  slot is left full in the same way when the listener always vetoes or always throws.
\<close>

theorem C1_rejected_rectangle_stays:
  "boxes (fst (run [MouseUp (mouse_at origin 50 40)] (mid_drag [veto_once] 0))) = []
   \<and> currentBox (fst (run [MouseUp (mouse_at origin 50 40)] (mid_drag [veto_once] 0))) = Some red_box
   \<and> boxes (fst (run [MouseUp (mouse_at origin 50 40), MouseDown (mouse_at origin 70 70) origin,
                      MouseUp (mouse_at origin 70 70)] (mid_drag [veto_once] 0))) = [BoxItem red_box]
   \<and> currentBox (fst (run [MouseUp (mouse_at origin 50 40)] (mid_drag [veto_always] 0))) = Some red_box
   \<and> currentBox (fst (run [MouseUp (mouse_at origin 50 40)] (mid_drag [throw_always] 0))) = Some red_box"
  by code_simp

text \<open>
  C2. \<open>addSaveListener\<close> appends, so the list of callbacks is in registration order. The
  loop of \<open>saveCurrentBox\<close> is the specification's \<open>evaluate\<close>: the listeners are called in
  that order, each in the world the one before left, up to and including the first that
  returns false or throws; that one yields \<open>Reject\<close>, and whatever listeners are registered
  after it makes no difference, for they are not called. A thrown error is logged to the
  console and otherwise treated as a veto: \<open>saveCurrentBox\<close> returns normally, with the
  canvas as it was. When every listener returns true the decision is \<open>Accept\<close> and the
  rectangle is appended to the committed list.
\<close>

theorem C2_save_pipeline:
  "saveCallbacks (addSaveListener cb s) = saveCallbacks s @ [cb]
   \<and> callbacks_loop cs b w = evaluate cs b w
   \<and> (first_veto cs b (host w) < length cs \<longrightarrow>
        fst (callbacks_loop cs b w) = Reject
        \<and> callbacks_loop (cs @ later) b w = callbacks_loop cs b w)
   \<and> (first_veto (saveCallbacks s) (currentBox s) (host w) < length (saveCallbacks s) \<longrightarrow>
        saveCurrentBox s w = (s, snd (evaluate (saveCallbacks s) (currentBox s) w)))
   \<and> (first_veto (saveCallbacks t) (currentBox t) (host v) = length (saveCallbacks t)
        \<and> currentBox t = Some box \<longrightarrow>
        saveCurrentBox t v =
          (t\<lparr>boxes := boxes t @ [BoxItem box], currentBox := None\<rparr>,
           v\<lparr>host := effects (saveCallbacks t) (currentBox t) (host v)\<rparr>))"
proof -
  have reject: "first_veto cs b (host w) < length cs \<longrightarrow>
        fst (callbacks_loop cs b w) = Reject
        \<and> callbacks_loop (cs @ later) b w = callbacks_loop cs b w"
  proof
    assume "first_veto cs b (host w) < length cs"
    then have "fst (callbacks_loop cs b w) = Reject"
      by (simp add: callbacks_loop_evaluate evaluate_decision)
    then show "fst (callbacks_loop cs b w) = Reject
        \<and> callbacks_loop (cs @ later) b w = callbacks_loop cs b w"
      by (simp add: callbacks_loop_reject_append)
  qed
  have keep: "first_veto (saveCallbacks s) (currentBox s) (host w) < length (saveCallbacks s) \<longrightarrow>
        saveCurrentBox s w = (s, snd (evaluate (saveCallbacks s) (currentBox s) w))"
    by (simp add: saveCurrentBox_def callbacks_loop_evaluate evaluate_def Let_def)
  have commit: "first_veto (saveCallbacks t) (currentBox t) (host v) = length (saveCallbacks t)
        \<and> currentBox t = Some box \<longrightarrow>
        saveCurrentBox t v =
          (t\<lparr>boxes := boxes t @ [BoxItem box], currentBox := None\<rparr>,
           v\<lparr>host := effects (saveCallbacks t) (currentBox t) (host v)\<rparr>)"
  proof (intro impI, elim conjE)
    assume all: "first_veto (saveCallbacks t) (currentBox t) (host v) = length (saveCallbacks t)"
      and slot: "currentBox t = Some box"
    have "callbacks_loop (saveCallbacks t) (currentBox t) v =
            (Accept, v\<lparr>host := effects (saveCallbacks t) (currentBox t) (host v)\<rparr>)"
      using all by (simp add: callbacks_loop_evaluate evaluate_def Let_def)
    then show "saveCurrentBox t v =
          (t\<lparr>boxes := boxes t @ [BoxItem box], currentBox := None\<rparr>,
           v\<lparr>host := effects (saveCallbacks t) (currentBox t) (host v)\<rparr>)"
      using slot by (simp add: saveCurrentBox_def)
  qed
  show ?thesis
    using reject keep commit by (simp add: addSaveListener_def callbacks_loop_evaluate)
qed

theorem C2_save_pipeline_witness:
  "first_veto [accept_always, throw_always, accept_always] (Some red_box) 0 < 3
   \<and> saveCurrentBox (fst (mid_drag [accept_always, throw_always, accept_always] 0)) (fresh_world 0)
       = (fst (mid_drag [accept_always, throw_always, accept_always] 0),
          \<lparr>console = [''Error: no''], host = 2\<rparr>)
   \<and> first_veto [accept_always, accept_always] (Some red_box) 0 = 2
   \<and> boxes (fst (saveCurrentBox (fst (mid_drag [accept_always, accept_always] 0)) (fresh_world 0)))
       = [BoxItem red_box]"
proof -
  let ?R = "[accept_always, throw_always, accept_always]"
  let ?A = "[accept_always, accept_always]"
  let ?s = "fst (mid_drag ?R 0)"
  let ?t = "fst (mid_drag ?A 0)"
  have veto: "first_veto ?R (Some red_box) 0 = 1"
    by (simp add: first_veto_def accept_always_def throw_always_def)
  have none: "first_veto ?A (Some red_box) 0 = 2"
    by (simp add: first_veto_def accept_always_def)
  have hyp_s: "first_veto (saveCallbacks ?s) (currentBox ?s) (host (fresh_world 0)) < length (saveCallbacks ?s)"
    by (simp add: mid_drag_fields veto fresh_world_def)
  have hyp_t: "first_veto (saveCallbacks ?t) (currentBox ?t) (host (fresh_world 0)) = length (saveCallbacks ?t)
      \<and> currentBox ?t = Some red_box"
    by (simp add: mid_drag_fields none fresh_world_def)
  note inst = C2_save_pipeline [where s = ?s and w = "fresh_world 0" and t = ?t and v = "fresh_world 0"
      and box = red_box and cs = ?R and b = "Some red_box" and later = "[]" and cb = accept_always]
  have rej: "saveCurrentBox ?s (fresh_world 0) =
      (?s, snd (evaluate (saveCallbacks ?s) (currentBox ?s) (fresh_world 0)))"
    using inst hyp_s by blast
  have acc: "saveCurrentBox ?t (fresh_world 0) =
          (?t\<lparr>boxes := boxes ?t @ [BoxItem red_box], currentBox := None\<rparr>,
           (fresh_world 0)\<lparr>host := effects (saveCallbacks ?t) (currentBox ?t) (host (fresh_world 0))\<rparr>)"
    using inst hyp_t by blast
  have ev: "snd (evaluate ?R (Some red_box) (fresh_world 0)) = \<lparr>console = [''Error: no''], host = 2\<rparr>"
    by (simp add: evaluate_def veto fresh_world_def accept_always_def throw_always_def)
  show ?thesis
    using rej acc veto none ev by (simp add: mid_drag_fields)
qed




text \<open>
  C4. The color generator's first call returns the palette entry at index 1, which is
  red, skipping index 0. For every \<open>k \<ge> 1\<close> the \<open>k\<close>-th call returns
  \<open>googColors ! (k mod length googColors)\<close>. Every call yields a value and advances the
  counter by exactly one, so \<open>k\<close> calls advance it by \<open>k\<close>; and no operation on a canvas
  ever sets the counter of its generator back.
\<close>

theorem C4_color_cycle:
  "fst (gen_next getRandomColor) = googColors ! 1
   \<and> fst (gen_next getRandomColor) = ''red''
   \<and> (1 \<le> k \<longrightarrow>
        length (fst (next_times k getRandomColor)) = k
        \<and> fst (next_times k getRandomColor) ! (k - 1) = googColors ! (k mod length googColors))
   \<and> currentNumber (snd (gen_next g)) = Suc (currentNumber g)
   \<and> currentNumber (snd (next_times k g)) = currentNumber g + k
   \<and> currentNumber (colorGenerator s)
        \<le> currentNumber (colorGenerator (fst (run ops (s, w))))"
proof -
  have kth: "1 \<le> k \<longrightarrow>
        length (fst (next_times k getRandomColor)) = k
        \<and> fst (next_times k getRandomColor) ! (k - 1) = googColors ! (k mod length googColors)"
  proof
    assume k: "1 \<le> k"
    have "[1..<Suc k] ! (k - 1) = k" using k by (simp add: nth_upt del: upt_Suc)
    then show "length (fst (next_times k getRandomColor)) = k
        \<and> fst (next_times k getRandomColor) ! (k - 1) = googColors ! (k mod length googColors)"
      using k by (simp add: next_times_gen getRandomColor_def del: upt_Suc)
  qed
  have first: "fst (gen_next getRandomColor) = googColors ! 1"
    "fst (gen_next getRandomColor) = ''red''"
    by (simp_all add: gen_next_def getRandomColor_def googColors_def)
  show ?thesis
    using kth first run_generator_mono [of "(s, w)" ops]
    by (simp add: gen_next_counter next_times_gen)
qed

theorem C4_color_cycle_witness:
  "(1::nat) \<le> 6
   \<and> fst (next_times 6 getRandomColor) = [''red'', ''yellow'', ''green'', ''blue'', ''red'', ''yellow'']
   \<and> fst (next_times 6 getRandomColor) ! (6 - 1) = googColors ! (6 mod length googColors)"
proof -
  have vals: "fst (next_times 6 getRandomColor) = [''red'', ''yellow'', ''green'', ''blue'', ''red'', ''yellow'']"
    by code_simp
  have "(1::nat) \<le> 6 \<longrightarrow>
        length (fst (next_times 6 getRandomColor)) = 6
        \<and> fst (next_times 6 getRandomColor) ! (6 - 1) = googColors ! (6 mod length googColors)"
    by (rule conjunct1 [OF conjunct2 [OF conjunct2 [OF C4_color_cycle]]])
  then have "fst (next_times 6 getRandomColor) ! (6 - 1) = googColors ! (6 mod length googColors)"
    by simp
  with vals show ?thesis by simp
qed

text \<open>
  C5. The palette is blue, red, yellow, green. On a new canvas with no listeners, a drag
  from (10,10) to (50,40) leaves the committed list equal to the one rectangle
  \<open>x = 10, y = 10, w = 40, h = 30\<close> in red, and a second drag from (0,0) to (0,0), its one
  pointer-move going nowhere, appends the rectangle \<open>x = 0, y = 0, w = 0, h = 0\<close> in yellow.
\<close>

theorem C5_two_drags:
  "googColors = [''blue'', ''red'', ''yellow'', ''green'']
   \<and> saveCallbacks (Canvas_new el a b :: 'w Canvas) = []
   \<and> boxes (Canvas_new el a b :: 'w Canvas) = []
   \<and> boxes (fst (run (drag (mouse_at r 10 10, r) [(mouse_at r 50 40, r)] (mouse_at r 50 40))
                   (Canvas_new el a b, w :: 'w World)))
       = [BoxItem \<lparr>posX = Num 10, posY = Num 10, width = Num 40, height = Num 30, color = ''red''\<rparr>]
   \<and> boxes (fst (run (drag (mouse_at r 10 10, r) [(mouse_at r 50 40, r)] (mouse_at r 50 40)
                        @ drag (mouse_at r 0 0, r) [(mouse_at r 0 0, r)] (mouse_at r 0 0))
                   (Canvas_new el a b, w :: 'w World)))
       = [BoxItem \<lparr>posX = Num 10, posY = Num 10, width = Num 40, height = Num 30, color = ''red''\<rparr>,
          BoxItem \<lparr>posX = Num 0, posY = Num 0, width = Num 0, height = Num 0, color = ''yellow''\<rparr>]"
proof -
  let ?C = "Canvas_new el a b :: 'w Canvas"
  let ?d1 = "drag (mouse_at r 10 10, r) [(mouse_at r 50 40, r)] (mouse_at r 50 40) :: 'w Op list"
  let ?d2 = "drag (mouse_at r 0 0, r) [(mouse_at r 0 0, r)] (mouse_at r 0 0) :: 'w Op list"
  obtain s1 w1 where r1: "run ?d1 (?C, w) = (s1, w1)"
    by (cases "run ?d1 (?C, w)")
  have red: "fst (take_color ?C) = ''red''"
    by (simp add: take_color_fields Canvas_new_fields gen_next_def getRandomColor_def googColors_def)
  have gen1: "colorGenerator (snd (take_color ?C)) = snd (gen_next getRandomColor)"
    by (simp add: take_color_fields Canvas_new_fields)
  have s1: "boxes s1 =
      [BoxItem \<lparr>posX = Num 10, posY = Num 10, width = Num 40, height = Num 30, color = ''red''\<rparr>]"
    "saveCallbacks s1 = []" "currentColor s1 = None"
    "colorGenerator s1 = snd (gen_next getRandomColor)"
    using drag_result [of ?C "(mouse_at r 10 10, r)" "[]" "(mouse_at r 50 40, r)" "mouse_at r 50 40" w]
    by (simp_all add: r1 Canvas_new_fields localX_mouse_at red gen1)
  have yellow: "fst (take_color s1) = ''yellow''"
    by (simp add: take_color_fields s1 gen_next_def getRandomColor_def googColors_def Let_def)
  have two: "boxes (fst (run ?d2 (s1, w1))) =
      [BoxItem \<lparr>posX = Num 10, posY = Num 10, width = Num 40, height = Num 30, color = ''red''\<rparr>,
       BoxItem \<lparr>posX = Num 0, posY = Num 0, width = Num 0, height = Num 0, color = ''yellow''\<rparr>]"
    using drag_result [OF s1(2), of "(mouse_at r 0 0, r)" "[]" "(mouse_at r 0 0, r)" "mouse_at r 0 0" w1]
    by (simp add: s1 localX_mouse_at yellow)
  have "run (?d1 @ ?d2) (?C, w) = run ?d2 (s1, w1)"
    by (simp only: run_append r1)
  then show ?thesis
    using s1(1) two r1 by (simp add: googColors_def Canvas_new_fields)
qed

theorem C5_two_drags_witness:
  "boxes (fst (run (drag (mouse_at origin 10 10, origin) [(mouse_at origin 50 40, origin)] (mouse_at origin 50 40)
                        @ drag (mouse_at origin 0 0, origin) [(mouse_at origin 0 0, origin)] (mouse_at origin 0 0))
                   (Canvas_new fresh_element 300 150 :: unit Canvas, fresh_world ())))
       = [BoxItem \<lparr>posX = Num 10, posY = Num 10, width = Num 40, height = Num 30, color = ''red''\<rparr>,
          BoxItem \<lparr>posX = Num 0, posY = Num 0, width = Num 0, height = Num 0, color = ''yellow''\<rparr>]"
  by (rule conjunct2 [OF conjunct2 [OF conjunct2 [OF conjunct2 [OF C5_two_drags]]]])

text \<open>
  C6, the code at the failing input. On the page \<open>Main\<close> sets up, the provisional slot is
  empty; a pointer-up with no pointer-down before it leaves the committed list as it was,
  but it does call the registered listener, with \<open>undefined\<close> for the box: the listener's
  \<open>TypeError\<close> appears on the console. Likewise a listener that counts its calls has
  counted one after such a pointer-up.
\<close>

theorem C6_listeners_called_on_empty_slot:
  "currentBox (fst (MainFn 1289 729 fresh_element (fresh_world []))) = None
   \<and> console (snd (MainFn 1289 729 fresh_element (fresh_world []))) = [''Mounted canvas'']
   \<and> console (snd (step (MouseUp (mouse_at origin 5 5)) (MainFn 1289 729 fresh_element (fresh_world []))))
       = [''Mounted canvas'', ''TypeError'']
   \<and> boxes (fst (step (MouseUp (mouse_at origin 5 5)) (MainFn 1289 729 fresh_element (fresh_world []))))
       = boxes (fst (MainFn 1289 729 fresh_element (fresh_world [])))
   \<and> host (snd (run [CallAddSaveListener accept_always, MouseUp (mouse_at origin 5 5)]
                   (Canvas_new fresh_element 300 150, fresh_world 0))) = 1"
  by code_simp

text \<open>
  C7. A pointer-move received while the drawing-enabled flag is false is a complete
  no-op: the handler returns the canvas object as it was, context included, so nothing is
  repainted, the committed list, the provisional slot, the current color and the
  generator are what they were, and the world is untouched. The flag is false on a new
  canvas and after every pointer-up.
\<close>

theorem C7_idle_move_is_noop:
  "(\<not> canDraw s \<longrightarrow> onDraw e r s = s \<and> step (MouseMove e r) (s, w) = (s, w))
   \<and> \<not> canDraw (Canvas_new el a b :: 'w Canvas)
   \<and> \<not> canDraw (fst (onMouseUp u s w))"
  by (simp add: onDraw_def drawRectangle_def onMouseUp_def saveCurrentBox_def Canvas_new_def
        setupSize_def split: prod.split Decision.split option.split)

theorem C7_idle_move_is_noop_witness:
  "\<not> canDraw (Canvas_new fresh_element 300 150 :: unit Canvas)
   \<and> step (MouseMove (mouse_at origin 7 9) origin) (Canvas_new fresh_element 300 150, fresh_world ())
       = (Canvas_new fresh_element 300 150, fresh_world ())"
proof -
  let ?C = "Canvas_new fresh_element 300 150 :: unit Canvas"
  have idle: "\<not> canDraw ?C"
    by (simp add: Canvas_new_def setupSize_def)
  have "\<not> canDraw ?C \<longrightarrow>
      onDraw (mouse_at origin 7 9) origin ?C = ?C
      \<and> step (MouseMove (mouse_at origin 7 9) origin) (?C, fresh_world ()) = (?C, fresh_world ())"
    by (rule conjunct1 [OF C7_idle_move_is_noop])
  with idle show ?thesis by blast
qed

text \<open>
  C8. Every pointer-up, like the constructor, leaves the current-color slot empty. From
  such a state, the pointer-down takes no color; the first pointer-move takes exactly one
  from the generator, the next of the palette; the later pointer-moves of the drag take
  none and keep that color; the pointer-up takes none and empties the slot again, so the
  first pointer-move of the next drag takes the palette's next color.
\<close>

theorem C8_one_color_per_drag:
  "currentColor (fst (onMouseUp u0 s0 w0)) = None
   \<and> currentColor (Canvas_new el a b :: 'w Canvas) = None
   \<and> (currentColor s = None \<longrightarrow>
       (let n = currentNumber (colorGenerator s);
            down = onMouseDown (fst d) (snd d) s;
            first = onDraw (fst m) (snd m) down;
            later = fst (run (moves ms) (first, w));
            up = fst (onMouseUp u later w);
            again = onDraw (fst m') (snd m') (onMouseDown (fst d') (snd d') up)
        in currentNumber (colorGenerator down) = n \<and> currentColor down = None
         \<and> currentNumber (colorGenerator first) = n + 1
         \<and> currentColor first = Some (googColors ! ((n + 1) mod length googColors))
         \<and> currentNumber (colorGenerator later) = n + 1
         \<and> currentColor later = currentColor first
         \<and> currentNumber (colorGenerator up) = n + 1 \<and> currentColor up = None
         \<and> currentNumber (colorGenerator again) = n + 2
         \<and> currentColor again = Some (googColors ! ((n + 2) mod length googColors))))"
proof -
  have new: "currentColor (Canvas_new el a b :: 'w Canvas) = None"
    by (simp add: Canvas_new_def setupSize_def)
  have drag: "currentColor s = None \<longrightarrow>
       (let n = currentNumber (colorGenerator s);
            down = onMouseDown (fst d) (snd d) s;
            first = onDraw (fst m) (snd m) down;
            later = fst (run (moves ms) (first, w));
            up = fst (onMouseUp u later w);
            again = onDraw (fst m') (snd m') (onMouseDown (fst d') (snd d') up)
        in currentNumber (colorGenerator down) = n \<and> currentColor down = None
         \<and> currentNumber (colorGenerator first) = n + 1
         \<and> currentColor first = Some (googColors ! ((n + 1) mod length googColors))
         \<and> currentNumber (colorGenerator later) = n + 1
         \<and> currentColor later = currentColor first
         \<and> currentNumber (colorGenerator up) = n + 1 \<and> currentColor up = None
         \<and> currentNumber (colorGenerator again) = n + 2
         \<and> currentColor again = Some (googColors ! ((n + 2) mod length googColors)))"
  proof
    assume idle: "currentColor s = None"
    let ?first = "onDraw (fst m) (snd m) (onMouseDown (fst d) (snd d) s)"
    let ?later = "fst (run (moves ms) (?first, w))"
    let ?up = "fst (onMouseUp u ?later w)"
    let ?again = "onDraw (fst m') (snd m') (onMouseDown (fst d') (snd d') ?up)"
    note first = first_move_takes_color [OF idle, of m d]
    have later: "currentColor ?later = currentColor ?first"
      "colorGenerator ?later = colorGenerator ?first"
      using run_moves_keep_color [OF first(3) first(2), of ms w] first(2) by simp_all
    have up: "currentColor ?up = None" "colorGenerator ?up = colorGenerator ?first"
      by (simp_all add: onMouseUp_color later)
    note again = first_move_takes_color [OF up(1), of m' d']
    show "let n = currentNumber (colorGenerator s);
            down = onMouseDown (fst d) (snd d) s;
            first = onDraw (fst m) (snd m) down;
            later = fst (run (moves ms) (first, w));
            up = fst (onMouseUp u later w);
            again = onDraw (fst m') (snd m') (onMouseDown (fst d') (snd d') up)
        in currentNumber (colorGenerator down) = n \<and> currentColor down = None
         \<and> currentNumber (colorGenerator first) = n + 1
         \<and> currentColor first = Some (googColors ! ((n + 1) mod length googColors))
         \<and> currentNumber (colorGenerator later) = n + 1
         \<and> currentColor later = currentColor first
         \<and> currentNumber (colorGenerator up) = n + 1 \<and> currentColor up = None
         \<and> currentNumber (colorGenerator again) = n + 2
         \<and> currentColor again = Some (googColors ! ((n + 2) mod length googColors))"
      unfolding Let_def
      using idle first(1,2) later up again(1,2)
      by (simp add: onMouseDown_fields gen_next_def Let_def)
  qed
  show ?thesis using new drag by (simp add: onMouseUp_color)
qed

theorem C8_one_color_per_drag_witness:
  "currentColor (Canvas_new fresh_element 300 150 :: unit Canvas) = None
   \<and> currentColor (onDraw (mouse_at origin 50 40) origin
        (onMouseDown (mouse_at origin 10 10) origin (Canvas_new fresh_element 300 150 :: unit Canvas)))
       = Some ''red''"
proof -
  let ?C = "Canvas_new fresh_element 300 150 :: unit Canvas"
  have idle: "currentColor ?C = None" by (simp add: Canvas_new_fields)
  have gen: "currentNumber (colorGenerator ?C) = 0"
    by (simp add: Canvas_new_fields getRandomColor_def)
  have "currentColor ?C = None \<longrightarrow>
       (let n = currentNumber (colorGenerator ?C);
            down = onMouseDown (fst (mouse_at origin 10 10, origin)) (snd (mouse_at origin 10 10, origin)) ?C;
            first = onDraw (fst (mouse_at origin 50 40, origin)) (snd (mouse_at origin 50 40, origin)) down;
            later = fst (run (moves []) (first, fresh_world ()));
            up = fst (onMouseUp (mouse_at origin 50 40) later (fresh_world ()));
            again = onDraw (fst (mouse_at origin 0 0, origin)) (snd (mouse_at origin 0 0, origin))
                      (onMouseDown (fst (mouse_at origin 0 0, origin)) (snd (mouse_at origin 0 0, origin)) up)
        in currentNumber (colorGenerator down) = n \<and> currentColor down = None
         \<and> currentNumber (colorGenerator first) = n + 1
         \<and> currentColor first = Some (googColors ! ((n + 1) mod length googColors))
         \<and> currentNumber (colorGenerator later) = n + 1
         \<and> currentColor later = currentColor first
         \<and> currentNumber (colorGenerator up) = n + 1 \<and> currentColor up = None
         \<and> currentNumber (colorGenerator again) = n + 2
         \<and> currentColor again = Some (googColors ! ((n + 2) mod length googColors)))"
    by (rule conjunct2 [OF conjunct2 [OF C8_one_color_per_drag]])
  then show ?thesis
    using idle gen by (simp add: Let_def googColors_def)
qed

text \<open>
  C9, as amended. A render appends its drawing calls to those made before. When every
  committed rectangle's stored color is one the context takes for a color, two renders in
  succession, nothing else changing, issue the same drawing calls: one clear of the whole
  element and then one call per committed item, in order, each rectangle in its stored
  color; what is drawn depends on the committed list, the element's size and the pen
  alone. The stored colors are such colors in every state reached from a new canvas, on
  a context that takes the palette's colors, by operations none of which is a call of
  \<open>setColor\<close> with a string that is no color. After each committed rectangle is stroked
  the current-color slot is restored to its value from before, and so is the context's
  stroke style whenever that slot held it and it is a color.
\<close>

theorem C9_render_idempotent:
  "drawn (ctx (refresh (s :: 'w Canvas))) = drawn (ctx s) @ rendered s
   \<and> (colors_parse s \<longrightarrow>
        rendered (refresh s) = rendered s
        \<and> drawn (ctx (refresh (refresh s))) = drawn (ctx s) @ rendered s @ rendered s
        \<and> rendered s =
            ClearRect (Num 0) (Num 0) (Num (elem_width (canvas s))) (Num (elem_height (canvas s)))
            # map (item_call (canvas s) (lineCap (ctx s)) (lineWidth (ctx s))) (boxes s))
   \<and> boxes (refresh s) = boxes s
   \<and> currentColor (refresh_item it s) = currentColor s
   \<and> currentColor (refresh s) = currentColor s
   \<and> (currentColor s = Some (strokeStyle (ctx s)) \<and> is_color (ctx s) (strokeStyle (ctx s)) \<longrightarrow>
        strokeStyle (ctx (refresh_item it s)) = strokeStyle (ctx s))
   \<and> (list_all (is_color (context2d el)) googColors
        \<and> list_all (op_parses (is_color (context2d el))) ops \<longrightarrow>
        colors_parse (fst (run ops (Canvas_new el a b :: 'w Canvas, v))))"
proof -
  have reach: "list_all (is_color (context2d el)) googColors
        \<and> list_all (op_parses (is_color (context2d el))) ops \<longrightarrow>
        colors_parse (fst (run ops (Canvas_new el a b :: 'w Canvas, v)))"
    using colors_inv_run [of "is_color (context2d el)" "(Canvas_new el a b :: 'w Canvas, v)" ops]
    by (simp add: colors_inv_new) (simp add: colors_inv_def)
  have idem: "colors_parse s \<longrightarrow>
        rendered (refresh s) = rendered s
        \<and> drawn (ctx (refresh (refresh s))) = drawn (ctx s) @ rendered s @ rendered s
        \<and> rendered s =
            ClearRect (Num 0) (Num 0) (Num (elem_width (canvas s))) (Num (elem_height (canvas s)))
            # map (item_call (canvas s) (lineCap (ctx s)) (lineWidth (ctx s))) (boxes s)"
  proof
    assume ok: "colors_parse s"
    then have ok': "colors_parse (refresh s)" by (simp add: colors_parse_refresh)
    have same: "rendered (refresh s) = rendered s"
      by (simp add: rendered_eq [OF ok] rendered_eq [OF ok'] refresh_keeps refresh_fields)
    have "drawn (ctx (refresh (refresh s))) = drawn (ctx (refresh s)) @ rendered (refresh s)"
      by (rule refresh_appends)
    then have twice: "drawn (ctx (refresh (refresh s))) = drawn (ctx s) @ rendered s @ rendered s"
      by (simp add: same refresh_appends)
    show "rendered (refresh s) = rendered s
        \<and> drawn (ctx (refresh (refresh s))) = drawn (ctx s) @ rendered s @ rendered s
        \<and> rendered s =
            ClearRect (Num 0) (Num 0) (Num (elem_width (canvas s))) (Num (elem_height (canvas s)))
            # map (item_call (canvas s) (lineCap (ctx s)) (lineWidth (ctx s))) (boxes s)"
      using same twice rendered_eq [OF ok] by simp
  qed
  show ?thesis
    using idem reach refresh_appends [of s] refresh_item_strokeStyle [of s it]
    by (simp add: refresh_fields refresh_item_currentColor)
qed

theorem C9_render_idempotent_witness:
  "colors_parse (fst third_drag)
   \<and> currentColor (fst third_drag) = Some (strokeStyle (ctx (fst third_drag)))
   \<and> is_color (ctx (fst third_drag)) (strokeStyle (ctx (fst third_drag)))
   \<and> boxes (fst third_drag) = [BoxItem red_box, BoxItem yellow_box]
   \<and> rendered (refresh (fst third_drag)) = rendered (fst third_drag)
   \<and> strokeStyle (ctx (refresh_item (BoxItem red_box) (fst third_drag))) = ''green''
   \<and> list_all (is_color (context2d fresh_element)) googColors
   \<and> list_all (op_parses (is_color (context2d fresh_element)))
        [CallSetColor ''purple'', MouseDown (mouse_at origin 5 5) origin,
         MouseMove (mouse_at origin 25 15) origin, MouseUp (mouse_at origin 25 15) :: unit Op]
   \<and> colors_parse (fst (run [CallSetColor ''purple'', MouseDown (mouse_at origin 5 5) origin,
                              MouseMove (mouse_at origin 25 15) origin, MouseUp (mouse_at origin 25 15)]
                          (Canvas_new fresh_element 300 150 :: unit Canvas, fresh_world ())))"
proof -
  let ?s = "fst third_drag"
  let ?ops = "[CallSetColor ''purple'', MouseDown (mouse_at origin 5 5) origin,
         MouseMove (mouse_at origin 25 15) origin, MouseUp (mouse_at origin 25 15) :: unit Op]"
  have ok: "colors_parse ?s" by code_simp
  have sync: "currentColor ?s = Some (strokeStyle (ctx ?s))" by code_simp
  have col: "is_color (ctx ?s) (strokeStyle (ctx ?s))" by code_simp
  have green: "strokeStyle (ctx ?s) = ''green''" by code_simp
  have bs: "boxes ?s = [BoxItem red_box, BoxItem yellow_box]" by code_simp
  have pal: "list_all (is_color (context2d fresh_element)) googColors" by code_simp
  have ops: "list_all (op_parses (is_color (context2d fresh_element))) ?ops" by code_simp
  note inst = C9_render_idempotent [where s = ?s and it = "BoxItem red_box" and el = fresh_element
      and ops = ?ops and a = 300 and b = 150 and v = "fresh_world ()"]
  have "rendered (refresh ?s) = rendered ?s"
    using inst ok by blast
  moreover have "strokeStyle (ctx (refresh_item (BoxItem red_box) ?s)) = strokeStyle (ctx ?s)"
    using inst sync col by blast
  moreover have "colors_parse (fst (run ?ops (Canvas_new fresh_element 300 150 :: unit Canvas, fresh_world ())))"
    using inst pal ops by blast
  ultimately show ?thesis
    using ok sync col green bs pal ops by simp
qed

text \<open>
  C9 as stated fails twice. For the context's stroke style: after two completed drags
  the current-color slot is empty and the stroke style is yellow; once the first
  committed rectangle, the red one, has been stroked, the stroke style is no longer
  yellow, since \<open>refresh\<close> saves and restores the empty slot, not the style. For
  idempotence: on the page whose host has called \<open>setColor('junk')\<close>, the committed
  rectangle that stores \<open>junk\<close> is stroked in whatever style the context has, and a second
  render does not draw what the first drew.
\<close>

theorem C9_stroke_style_counterexample:
  "boxes (fst two_drags) = [BoxItem red_box, BoxItem yellow_box]
   \<and> currentColor (fst two_drags) = None
   \<and> strokeStyle (ctx (fst two_drags)) = ''yellow''
   \<and> strokeStyle (ctx (refresh_item (BoxItem red_box) (fst two_drags)))
       \<noteq> strokeStyle (ctx (fst two_drags))
   \<and> rendered (refresh (fst junk_page)) \<noteq> rendered (fst junk_page)"
  by code_simp

text \<open>
  C10. The committed list is append-only: whatever operations run (mouse events, a
  picture's load, the public methods), the list at an earlier moment is a prefix of the
  list at any later moment, and one operation appends at most one item.
\<close>

theorem C10_committed_list_append_only:
  "prefix (boxes (fst (run ops1 (s, w)))) (boxes (fst (run (ops1 @ ops2) (s, w))))
   \<and> (\<exists>zs. boxes (fst (step op (s, w))) = boxes s @ zs \<and> length zs \<le> 1)"
  using run_boxes_prefix [of "run ops1 (s, w)" ops2] step_boxes [of op s w]
  by (simp add: run_append)

theorem C10_committed_list_append_only_witness:
  "prefix (boxes (fst (run (drag (mouse_at origin 10 10, origin) [(mouse_at origin 50 40, origin)] (mouse_at origin 50 40))
                   (Canvas_new fresh_element 300 150 :: unit Canvas, fresh_world ()))))
          (boxes (fst (run (drag (mouse_at origin 10 10, origin) [(mouse_at origin 50 40, origin)] (mouse_at origin 50 40)
                        @ [CallSetPicture ''./static/picture.jpg''])
                   (Canvas_new fresh_element 300 150 :: unit Canvas, fresh_world ()))))"
  by (rule conjunct1 [OF C10_committed_list_append_only])

end
